theory Spec2Isabelle
  imports Complex_Main "HOL-Library.Word"
begin

section \<open>The SAT driver of gpufilter (\<^verbatim>\<open>src/sat.cu\<close>)\<close>

text \<open>
  The file \<^verbatim>\<open>sat.cu\<close> holds two functions: the dispatcher \<^verbatim>\<open>sat\<close> and the
  program entry \<^verbatim>\<open>main\<close>. Everything else they call (\<^verbatim>\<open>initial_setup\<close>,
  \<^verbatim>\<open>print_info\<close>, \<^verbatim>\<open>ref_sat_cpu\<close>, \<^verbatim>\<open>sat_gpu\<close>, \<^verbatim>\<open>check_cpu_reference\<close>) lives in
  headers of the library. The embedding takes those collaborators as parameters,
  collected in a record, and makes the effects of the driver explicit: the image
  buffer is passed and returned, the text written to \<^verbatim>\<open>std::cout\<close> is a list of
  output items, and every collaborator call is logged with its arguments.
\<close>

subsection \<open>Data\<close>

text \<open>A C \<^verbatim>\<open>int\<close>: 32 bits, two's complement, compared as a signed value.\<close>

type_synonym cint = "32 word"

text \<open>\<^verbatim>\<open>gpufilter::BorderType\<close>: "either zero, clamp, repeat or reflect".\<close>

datatype BorderType = Zero | Clamp | Repeat | Reflect

text \<open>
  \<^verbatim>\<open>
  #ifndef ORDER
  #define ORDER 1 // default filter order r=1
  #endif
  \<close>
  The filter order is a parameter of the build: the compiler may be given a
  value for \<^verbatim>\<open>ORDER\<close> (\<open>Some r\<close>), and only when it is not (\<open>None\<close>) does the file
  define it as 1.
\<close>

type_synonym build = "nat option"

definition ORDER :: "build \<Rightarrow> nat" where
  "ORDER d = (case d of None \<Rightarrow> 1 | Some r \<Rightarrow> r)"

text \<open>
  The variables that \<^verbatim>\<open>main\<close> declares and \<^verbatim>\<open>initial_setup\<close> fills through its
  reference parameters. The sample type \<open>'a\<close> stands for \<^verbatim>\<open>float\<close>.
\<close>

record 'a setup_vars =
  s_width :: cint
  s_height :: cint
  s_runtimes :: cint
  s_btype :: BorderType
  s_border :: cint
  s_cpu_img :: "'a list"
  s_gpu_img :: "'a list"
  s_w :: "'a list"
  s_a0border :: cint
  s_me :: 'a
  s_mre :: 'a

text \<open>
  The collaborators. A buffer passed by pointer and filtered in place is a list
  taken and returned; a template argument \<^verbatim>\<open><R>\<close> is a leading \<open>nat\<close>;
  \<^verbatim>\<open>sat_gpu<false, R>\<close> and \<^verbatim>\<open>sat_gpu<true, R>\<close> are two functions, as their
  argument lists differ; \<^verbatim>\<open>check_cpu_reference\<close> returns the two scalars it
  writes through \<^verbatim>\<open>me\<close> and \<^verbatim>\<open>mre\<close>.
\<close>

record 'a collaborators =
  initial_setup :: "string list \<Rightarrow> 'a setup_vars"
  ref_sat_cpu :: "nat \<Rightarrow> 'a list \<Rightarrow> cint \<Rightarrow> cint \<Rightarrow> 'a list \<Rightarrow> cint \<Rightarrow> BorderType \<Rightarrow> 'a list"
  sat_gpu_false :: "nat \<Rightarrow> 'a list \<Rightarrow> cint \<Rightarrow> cint \<Rightarrow> cint \<Rightarrow> 'a list \<Rightarrow> 'a list"
  sat_gpu_true :: "nat \<Rightarrow> 'a list \<Rightarrow> cint \<Rightarrow> cint \<Rightarrow> cint \<Rightarrow> 'a list \<Rightarrow> cint \<Rightarrow> BorderType \<Rightarrow> 'a list"
  check_cpu_reference :: "'a list \<Rightarrow> 'a list \<Rightarrow> cint \<Rightarrow> 'a \<Rightarrow> 'a \<Rightarrow> 'a \<times> 'a"

text \<open>The log of calls: one constructor per callee, holding the arguments.\<close>

datatype 'a call =
    CallRefSatCpu nat "'a list" cint cint "'a list" cint BorderType
  | CallSat nat "'a list" cint cint cint "'a list" cint BorderType
  | CallSatGpuFalse nat "'a list" cint cint cint "'a list"
  | CallSatGpuTrue nat "'a list" cint cint cint "'a list" cint BorderType
  | CallCheckCpuReference "'a list" "'a list" cint "'a" "'a"

text \<open>
  What is written to \<^verbatim>\<open>std::cout\<close>: a string literal, an integer, a sample under
  \<^verbatim>\<open>std::scientific\<close>, or whatever \<^verbatim>\<open>print_info\<close> prints for its arguments.
\<close>

datatype 'a out_item =
    Str string
  | Num nat
  | Scientific 'a
  | PrintInfo cint cint BorderType cint cint "'a list"

record 'a run =
  stdout :: "'a out_item list"
  calls :: "'a call list"
  exit_status :: int

subsection \<open>\<^verbatim>\<open>sat\<close>\<close>

text \<open>
  \<^verbatim>\<open>
  if (border == 0) {
      gpufilter::sat_gpu<false, R>(h_img, width, height, runtimes, w);
  }
  else if (border > 0) {
      gpufilter::sat_gpu<true, R>(h_img, width, height, runtimes, w, border, btype);
  }
  \<close>
  The result is the image buffer after the call and the calls dispatched.
\<close>

definition sat ::
  "'a collaborators \<Rightarrow> nat \<Rightarrow> 'a list \<Rightarrow> cint \<Rightarrow> cint \<Rightarrow> cint \<Rightarrow> 'a list \<Rightarrow> cint \<Rightarrow> BorderType
    \<Rightarrow> 'a list \<times> 'a call list" where
  "sat clb R h_img width height runtimes w border btype =
     (if border = 0 then
        (sat_gpu_false clb R h_img width height runtimes w,
         [CallSatGpuFalse R h_img width height runtimes w])
      else if 0 <s border then
        (sat_gpu_true clb R h_img width height runtimes w border btype,
         [CallSatGpuTrue R h_img width height runtimes w border btype])
      else (h_img, []))"

subsection \<open>\<^verbatim>\<open>main\<close>\<close>

text \<open>\<^verbatim>\<open>#define APPNAME "[sat_" << ORDER << "]"\<close>\<close>

definition APPNAME :: "build \<Rightarrow> 'a out_item list" where
  "APPNAME d = [Str ''[sat_'', Num (ORDER d), Str '']'']"

text \<open>\<^verbatim>\<open>w[0] = 1.; w[1] = -1.; // this is sat\<close>\<close>

definition set_sat_weights :: "'a::{one,uminus} list \<Rightarrow> 'a list" where
  "set_sat_weights w = (w[0 := 1])[1 := - 1]"

text \<open>
  \<^verbatim>\<open>main\<close>, in the build \<open>d\<close>: the weight vector is a
  \<^verbatim>\<open>Vector<float, ORDER + 1>\<close>, and the engines are instantiated at \<^verbatim>\<open><ORDER>\<close>.
\<close>

definition main :: "build \<Rightarrow> 'a::{one,uminus} collaborators \<Rightarrow> string list \<Rightarrow> 'a run" where
  "main d clb argv =
     (let s = initial_setup clb argv;
          width = s_width s; height = s_height s; runtimes = s_runtimes s;
          border = s_border s; a0border = s_a0border s; btype = s_btype s;
          w = set_sat_weights (s_w s);
          out1 = (if runtimes = 1 then [PrintInfo width height btype border a0border w] else []);
          cpu_img = ref_sat_cpu clb (ORDER d) (s_cpu_img s) width height w a0border btype;
          (gpu_img, dispatched) = sat clb (ORDER d) (s_gpu_img s) width height runtimes w border btype;
          (me, mre) = check_cpu_reference clb cpu_img gpu_img (width * height) (s_me s) (s_mre s);
          out2 = (if runtimes = 1 then APPNAME d @ [Str '' [max-error] [max-relative-error]:''] else []);
          out3 = [Str '' '', Scientific me, Str '' '', Scientific mre, Str [CHR 0x0A]]
      in \<lparr> stdout = out1 @ out2 @ out3,
           calls = [CallRefSatCpu (ORDER d) (s_cpu_img s) width height w a0border btype,
                    CallSat (ORDER d) (s_gpu_img s) width height runtimes w border btype]
                   @ dispatched
                   @ [CallCheckCpuReference cpu_img gpu_img (width * height) (s_me s) (s_mre s)],
           exit_status = 0 \<rparr>)"

text \<open>The weight vector a logged call was given, if it takes one.\<close>

fun call_weights :: "'a call \<Rightarrow> 'a list option" where
  "call_weights (CallRefSatCpu R img width height w a0border btype) = Some w"
| "call_weights (CallSat R img width height runtimes w border btype) = Some w"
| "call_weights (CallSatGpuFalse R img width height runtimes w) = Some w"
| "call_weights (CallSatGpuTrue R img width height runtimes w border btype) = Some w"
| "call_weights (CallCheckCpuReference cpu gpu ne me mre) = None"

section \<open>The collaborators, modelled from the specification\<close>

text \<open>
  The functions below are not in \<^verbatim>\<open>sat.cu\<close>. They follow the specification of
  the library, over an ordered field in place of \<^verbatim>\<open>float\<close>: sums and products are
  exact, so nothing here speaks about rounding.
\<close>

subsection \<open>Border policy\<close>

text \<open>
  Modelled from the spec: the border policy, which the library keeps in a header
  that is not part of \<^verbatim>\<open>sat.cu\<close>. Given a coordinate \<open>i\<close> on an axis of \<open>n\<close>
  stored samples, it yields the stored coordinate to read, or \<open>None\<close> where the
  assumed value is 0. An in-range coordinate is itself. Outside the range:
  zero gives 0; clamp gives the nearest in-range coordinate; repeat wraps the
  coordinate modulo \<open>n\<close>; reflect mirrors it at the boundary without duplicating
  the edge sample (period \<open>2 * (n - 1)\<close>).
\<close>

definition border_coord :: "BorderType \<Rightarrow> int \<Rightarrow> int \<Rightarrow> int option" where
  "border_coord bt n i =
     (if 0 \<le> i \<and> i < n then Some i
      else case bt of
        Zero \<Rightarrow> None
      | Clamp \<Rightarrow> Some (if i < 0 then 0 else n - 1)
      | Repeat \<Rightarrow> Some (i mod n)
      | Reflect \<Rightarrow>
          (if n \<le> 1 then Some 0
           else let m = i mod (2 * (n - 1))
                in Some (if m < n then m else 2 * (n - 1) - m)))"

text \<open>
  Modelled from the spec: sampling a line of stored pixels under the border
  policy. A coordinate that is still out of range (an empty line) reads as 0.
\<close>

definition border_policy :: "BorderType \<Rightarrow> 'a::zero list \<Rightarrow> int \<Rightarrow> 'a" where
  "border_policy bt pixels i =
     (case border_coord bt (int (length pixels)) i of
        None \<Rightarrow> 0
      | Some j \<Rightarrow> if 0 \<le> j \<and> j < int (length pixels) then pixels ! nat j else 0)"

text \<open>Modelled from the spec: the same policy on both axes of an image held as rows.\<close>

definition border_policy2 :: "BorderType \<Rightarrow> 'a::zero list list \<Rightarrow> int \<Rightarrow> int \<Rightarrow> 'a" where
  "border_policy2 bt rows r c =
     (case border_coord bt (int (length rows)) r of
        None \<Rightarrow> 0
      | Some i \<Rightarrow> if 0 \<le> i \<and> i < int (length rows) then border_policy bt (rows ! nat i) c else 0)"

subsection \<open>Images and tiles\<close>

text \<open>
  Modelled from the spec: an image is a flat row-major buffer of \<open>W * H\<close> samples.
  \<open>rows_of\<close> reads it as \<open>H\<close> rows of \<open>W\<close> samples; \<open>concat\<close> flattens it again.
\<close>

definition rows_of :: "nat \<Rightarrow> nat \<Rightarrow> 'a list \<Rightarrow> 'a list list" where
  "rows_of W H img = map (\<lambda>r. take W (drop (r * W) img)) [0..<H]"

text \<open>Modelled from the spec: the tile side \<open>T\<close>, 32 in the reference design.\<close>

definition TILE :: nat where
  "TILE = 32"

text \<open>
  Modelled from the spec: the tile decomposer on one line, \<open>ceil (n / T)\<close> tiles of
  side \<open>T\<close>, the last one partially filled when \<open>T\<close> does not divide \<open>n\<close>.
\<close>

definition tiles_of :: "nat \<Rightarrow> 'a list \<Rightarrow> 'a list list" where
  "tiles_of T xs = map (\<lambda>k. take T (drop (k * T) xs)) [0..<(length xs + T - 1) div T]"

text \<open>
  Modelled from the spec: with border extent \<open>e > 0\<close> the image is extended by
  \<open>e\<close> tiles on every side, whose samples come from the border policy alone;
  \<open>crop_image\<close> takes the stored part back out.
\<close>

definition extend_image :: "BorderType \<Rightarrow> nat \<Rightarrow> nat \<Rightarrow> nat \<Rightarrow> 'a::zero list list \<Rightarrow> 'a list list" where
  "extend_image bt p W H rows =
     map (\<lambda>r. map (\<lambda>c. border_policy2 bt rows r c) [- int p .. int W + int p - 1])
         [- int p .. int H + int p - 1]"

definition crop_image :: "nat \<Rightarrow> nat \<Rightarrow> nat \<Rightarrow> 'a list list \<Rightarrow> 'a list list" where
  "crop_image p W H rows = map (\<lambda>row. take W (drop p row)) (take H (drop p rows))"

subsection \<open>Reference engine\<close>

text \<open>
  Modelled from the spec: the weight vector is the feedforward weight \<open>a0\<close>
  followed by \<open>R\<close> feedback weights. The algebra that turns weights into the
  coefficients \<open>b\<^sub>k\<close> of the recurrence is a collaborator the spec leaves out; it
  fixes only that the weights \<open>{1, -1}\<close> make the recurrence produce the
  summed-area table, which needs \<open>b\<^sub>1 = 1\<close>. The model takes \<open>b\<^sub>k = - w\<^sub>k\<close>, the
  usual convention for a recursive filter \<open>y\<^sub>i + w\<^sub>1 y\<^sub>i\<^sub>-\<^sub>1 + ... = a0 x\<^sub>i\<close>.
\<close>

definition feedforward :: "'a::zero list \<Rightarrow> 'a" where
  "feedforward w = (case w of [] \<Rightarrow> 0 | a0 # _ \<Rightarrow> a0)"

definition feedback :: "'a::uminus list \<Rightarrow> 'a list" where
  "feedback w = map uminus (tl w)"

text \<open>
  Modelled from the spec: the sequential recurrence
  \<open>y[i] = a0 * x[i] + (\<Sum>k=1..R. b\<^sub>k * y[i-k])\<close> in increasing coordinate order.
  \<open>prev\<close> holds the \<open>R\<close> outputs before the current position, the latest first.
\<close>

fun recursive_filter :: "'a::semiring_0 \<Rightarrow> 'a list \<Rightarrow> 'a list \<Rightarrow> 'a list \<Rightarrow> 'a list" where
  "recursive_filter a0 b prev [] = []"
| "recursive_filter a0 b prev (x # xs) =
     (let y = a0 * x + sum_list (map2 (*) b prev)
      in y # recursive_filter a0 b (take (length b) (y # prev)) xs)"

text \<open>
  Modelled from the spec: a separable two-dimensional filter, one pass along the
  rows and one along the columns (the orthogonal axis), by transposition.
\<close>

definition two_passes :: "('a list \<Rightarrow> 'a list) \<Rightarrow> 'a list list \<Rightarrow> 'a list list" where
  "two_passes line_filter rows = transpose (map line_filter (transpose (map line_filter rows)))"

text \<open>
  Modelled from the spec: a filter on the image with border extent \<open>e\<close>: on the
  stored image alone when \<open>e = 0\<close>, else on the image extended by \<open>e\<close> tiles.
\<close>

definition filter_image ::
  "('a::zero list \<Rightarrow> 'a list) \<Rightarrow> BorderType \<Rightarrow> nat \<Rightarrow> nat \<Rightarrow> nat \<Rightarrow> 'a list \<Rightarrow> 'a list" where
  "filter_image line_filter bt e W H img =
     (if e = 0 then concat (two_passes line_filter (rows_of W H img))
      else concat (crop_image (e * TILE) W H
             (two_passes line_filter (extend_image bt (e * TILE) W H (rows_of W H img)))))"

text \<open>
  Modelled from the spec: the reference engine, the recurrence from a zero state
  along every row and then along every column.
\<close>

definition spec_ref_sat_cpu ::
  "nat \<Rightarrow> 'a::ring list \<Rightarrow> cint \<Rightarrow> cint \<Rightarrow> 'a list \<Rightarrow> cint \<Rightarrow> BorderType \<Rightarrow> 'a list" where
  "spec_ref_sat_cpu R img width height w a0border btype =
     filter_image (recursive_filter (feedforward w) (feedback w) (replicate R 0))
       btype (nat (sint a0border)) (nat (sint width)) (nat (sint height)) img"

subsection \<open>Tiled engine\<close>

text \<open>
  Modelled from the spec: the outgoing carry of a tile, its last \<open>R\<close> outputs
  (the latest first); a tile shorter than \<open>R\<close> passes on part of its incoming state.
\<close>

definition carry_out :: "nat \<Rightarrow> 'a list \<Rightarrow> 'a list \<Rightarrow> 'a list" where
  "carry_out R prev ys = take R (rev ys @ prev)"

text \<open>
  Modelled from the spec: the transfer map of a tile of \<open>n\<close> samples, the additive
  effect of an incoming carry \<open>c\<close> on the tile's outputs. It is the response of
  the recurrence to a zero input from the state \<open>c\<close>.
\<close>

definition transfer :: "'a::semiring_0 \<Rightarrow> 'a list \<Rightarrow> nat \<Rightarrow> 'a list \<Rightarrow> 'a list" where
  "transfer a0 b n c = recursive_filter a0 b c (replicate n 0)"

text \<open>
  Modelled from the spec: carry propagation along one line of tiles, in scan
  order (the line-sequential form). Each tile comes as its local outgoing carry
  and its length; the result is the true incoming carry of every tile.
\<close>

fun carry_propagation ::
  "'a::semiring_0 \<Rightarrow> 'a list \<Rightarrow> 'a list \<Rightarrow> ('a list \<times> nat) list \<Rightarrow> 'a list list" where
  "carry_propagation a0 b c [] = []"
| "carry_propagation a0 b c ((l, n) # ts) =
     c # carry_propagation a0 b
           (map2 (+) l (carry_out (length b) c (transfer a0 b n c))) ts"

text \<open>Modelled from the spec: fix-up, \<open>local_output + transfer(incoming_carry)\<close>.\<close>

definition fixup :: "'a::semiring_0 \<Rightarrow> 'a list \<Rightarrow> 'a list \<Rightarrow> 'a list \<Rightarrow> 'a list" where
  "fixup a0 b local_output c = map2 (+) local_output (transfer a0 b (length local_output) c)"

text \<open>
  Modelled from the spec: one line through the three stages. Local filter: every
  tile from a zero incoming carry. Carry propagation. Fix-up of every tile.
\<close>

definition tiled_filter :: "nat \<Rightarrow> 'a::semiring_0 \<Rightarrow> 'a list \<Rightarrow> 'a list \<Rightarrow> 'a list" where
  "tiled_filter T a0 b xs =
     (let z = replicate (length b) 0;
          locals = map (recursive_filter a0 b z) (tiles_of T xs);
          carries = carry_propagation a0 b z
                      (map (\<lambda>l. (carry_out (length b) z l, length l)) locals)
      in concat (map2 (fixup a0 b) locals carries))"

text \<open>
  Modelled from the spec: \<^verbatim>\<open>sat_gpu<false, R>\<close> (no border) and
  \<^verbatim>\<open>sat_gpu<true, R>\<close> (border tiles), the tiled engine along rows and then columns.
  The repetitions serve timing only: every one filters the same input.
\<close>

definition spec_sat_gpu_false ::
  "nat \<Rightarrow> 'a::ring list \<Rightarrow> cint \<Rightarrow> cint \<Rightarrow> cint \<Rightarrow> 'a list \<Rightarrow> 'a list" where
  "spec_sat_gpu_false R h_img width height runtimes w =
     filter_image (tiled_filter TILE (feedforward w) (feedback w))
       Zero 0 (nat (sint width)) (nat (sint height)) h_img"

definition spec_sat_gpu_true ::
  "nat \<Rightarrow> 'a::ring list \<Rightarrow> cint \<Rightarrow> cint \<Rightarrow> cint \<Rightarrow> 'a list \<Rightarrow> cint \<Rightarrow> BorderType \<Rightarrow> 'a list" where
  "spec_sat_gpu_true R h_img width height runtimes w border btype =
     filter_image (tiled_filter TILE (feedforward w) (feedback w))
       btype (nat (sint border)) (nat (sint width)) (nat (sint height)) h_img"

subsection \<open>Accuracy checker\<close>

text \<open>
  Modelled from the spec: the accuracy checker's loop over the pixels, keeping
  the largest \<open>\<bar>gpu - cpu\<bar>\<close> and, where \<open>\<bar>cpu\<bar> > 0\<close>, the largest
  \<open>\<bar>gpu - cpu\<bar> / \<bar>cpu\<bar>\<close> seen so far.
\<close>

fun check_loop :: "'a::linordered_field list \<Rightarrow> 'a list \<Rightarrow> 'a \<Rightarrow> 'a \<Rightarrow> 'a \<times> 'a" where
  "check_loop (c # cpu) (g # gpu) me mre =
     check_loop cpu gpu (max me \<bar>g - c\<bar>)
       (if \<bar>c\<bar> > 0 then max mre (\<bar>g - c\<bar> / \<bar>c\<bar>) else mre)"
| "check_loop _ _ me mre = (me, mre)"

text \<open>
  Modelled from the spec: \<^verbatim>\<open>check_cpu_reference\<close> on the first \<open>ne\<close> samples of the
  two buffers. The maxima start from 0 (an error magnitude is never negative);
  what \<^verbatim>\<open>me\<close> and \<^verbatim>\<open>mre\<close> held before is overwritten.
\<close>

definition spec_check_cpu_reference ::
  "'a::linordered_field list \<Rightarrow> 'a list \<Rightarrow> cint \<Rightarrow> 'a \<Rightarrow> 'a \<Rightarrow> 'a \<times> 'a" where
  "spec_check_cpu_reference cpu gpu ne me mre =
     check_loop (take (nat (sint ne)) cpu) (take (nat (sint ne)) gpu) 0 0"

subsection \<open>The driver on the modelled collaborators\<close>

text \<open>
  The record of collaborators that \<^verbatim>\<open>main\<close> runs on in the scenarios: the
  modelled engines and checker, and a setup that stands for \<^verbatim>\<open>initial_setup\<close>.
\<close>

definition spec_collaborators ::
  "(string list \<Rightarrow> 'a setup_vars) \<Rightarrow> 'a::linordered_field collaborators" where
  "spec_collaborators setup =
     \<lparr> initial_setup = setup,
       ref_sat_cpu = spec_ref_sat_cpu,
       sat_gpu_false = spec_sat_gpu_false,
       sat_gpu_true = spec_sat_gpu_true,
       check_cpu_reference = spec_check_cpu_reference \<rparr>"

text \<open>
  \<^verbatim>\<open>initial_setup\<close> is not in \<^verbatim>\<open>sat.cu\<close> and the spec leaves it out. A scenario
  fixes what it hands to \<^verbatim>\<open>main\<close>: a \<open>W \<times> H\<close> image of ones in both buffers,
  the given repetition count, border extent (also for the reference engine) and
  border type, and a weight vector of two entries (order 1) that are not yet
  the SAT weights.
\<close>

definition setup_ones ::
  "nat \<Rightarrow> nat \<Rightarrow> cint \<Rightarrow> cint \<Rightarrow> BorderType \<Rightarrow> string list \<Rightarrow> real setup_vars" where
  "setup_ones W H runtimes border btype argv =
     \<lparr> s_width = of_nat W, s_height = of_nat H, s_runtimes = runtimes,
       s_btype = btype, s_border = border,
       s_cpu_img = replicate (W * H) 1, s_gpu_img = replicate (W * H) 1,
       s_w = [7, 7], s_a0border = border, s_me = 0, s_mre = 0 \<rparr>"


definition setup_order_two :: "string list \<Rightarrow> real setup_vars" where
  "setup_order_two argv = (setup_ones 2 2 1 0 Zero argv) \<lparr> s_w := [7, 7, 7] \<rparr>"

text \<open>
  The table the all-ones scenario expects, row-major: \<open>(r + 1) * (c + 1)\<close> at
  row \<open>r\<close> and column \<open>c\<close>.
\<close>

definition ones_table :: "nat \<Rightarrow> nat \<Rightarrow> real list" where
  "ones_table W H = concat (map (\<lambda>r. map (\<lambda>c. real ((r + 1) * (c + 1))) [0..<W]) [0..<H])"

section \<open>Properties of the driver\<close>

lemma set_sat_weights_drop:
  "2 \<le> length w \<Longrightarrow> set_sat_weights w = 1 # - 1 # drop 2 w"
  by (cases w; cases "tl w") (auto simp: set_sat_weights_def)




text \<open>
  C4 (as the code has it). In a build of any order \<open>R \<ge> 1\<close>, whatever
  \<^verbatim>\<open>initial_setup\<close> left in the weight vector (of \<open>R + 1\<close> entries), the reference
  engine and \<^verbatim>\<open>sat\<close> are called with a vector \<open>w\<close> that has \<open>w[0] = 1\<close> and
  \<open>w[1] = -1\<close> and the entries from \<open>w[2]\<close> on as \<^verbatim>\<open>initial_setup\<close> left them; every
  later call that takes the weights, and \<^verbatim>\<open>print_info\<close>, gets the same vector.
  In the build that leaves \<^verbatim>\<open>ORDER\<close> to the file, the order is 1 and the vector is
  \<open>[1, -1]\<close>.
\<close>

theorem main_weights_fixed:
  fixes clb :: "'a::{one,uminus} collaborators" and argv :: "string list" and d :: build
  defines "s \<equiv> initial_setup clb argv"
  defines "w \<equiv> 1 # - 1 # drop 2 (s_w s)"
  assumes "length (s_w s) = ORDER d + 1" and "1 \<le> ORDER d"
  shows "calls (main d clb argv) ! 0 =
           CallRefSatCpu (ORDER d) (s_cpu_img s) (s_width s) (s_height s) w (s_a0border s) (s_btype s)
    \<and> calls (main d clb argv) ! 1 =
           CallSat (ORDER d) (s_gpu_img s) (s_width s) (s_height s) (s_runtimes s) w (s_border s) (s_btype s)
    \<and> (\<forall>c \<in> set (calls (main d clb argv)). call_weights c = None \<or> call_weights c = Some w)
    \<and> (\<forall>x \<in> set (stdout (main d clb argv)). \<forall>wd ht bt bd a0 w'.
          x = PrintInfo wd ht bt bd a0 w' \<longrightarrow> w' = w)
    \<and> w ! 0 = 1 \<and> w ! 1 = - 1 \<and> length w = ORDER d + 1
    \<and> (d = None \<longrightarrow> ORDER d = 1 \<and> w = [1, - 1])"
proof -
  from assms(3,4) have len: "2 \<le> length (s_w s)" by simp
  then have w: "set_sat_weights (s_w (initial_setup clb argv)) = w"
    unfolding w_def s_def by (rule set_sat_weights_drop)
  have calls: "calls (main d clb argv) ! 0 =
           CallRefSatCpu (ORDER d) (s_cpu_img s) (s_width s) (s_height s) w (s_a0border s) (s_btype s)
    \<and> calls (main d clb argv) ! 1 =
           CallSat (ORDER d) (s_gpu_img s) (s_width s) (s_height s) (s_runtimes s) w (s_border s) (s_btype s)
    \<and> (\<forall>c \<in> set (calls (main d clb argv)). call_weights c = None \<or> call_weights c = Some w)
    \<and> (\<forall>x \<in> set (stdout (main d clb argv)). \<forall>wd ht bt bd a0 w'.
          x = PrintInfo wd ht bt bd a0 w' \<longrightarrow> w' = w)"
    unfolding s_def
    by (auto simp add: main_def Let_def w sat_def APPNAME_def split: prod.splits if_splits)
  have entries: "w ! 0 = 1 \<and> w ! 1 = - 1 \<and> length w = ORDER d + 1"
    using assms(3) len by (simp add: w_def)
  have default: "ORDER d = 1 \<and> w = [1, - 1]" if "d = None"
    using that assms(3) by (simp add: w_def ORDER_def)
  from calls entries default show ?thesis by blast
qed

theorem main_weights_fixed_witness:
  "calls (main None (spec_collaborators (setup_ones 2 2 1 0 Zero)) []) ! 1 =
     CallSat 1 (replicate (2 * 2) 1) 2 2 1 [1, - 1] 0 Zero
   \<and> calls (main (Some 2) (spec_collaborators setup_order_two) []) ! 0 =
     CallRefSatCpu 2 (replicate (2 * 2) 1) 2 2 [1, - 1, 7] 0 Zero"
  using main_weights_fixed [of "spec_collaborators (setup_ones 2 2 1 0 Zero)" "[]" None]
        main_weights_fixed [of "spec_collaborators setup_order_two" "[]" "Some 2"]
  by (simp add: spec_collaborators_def setup_order_two_def setup_ones_def ORDER_def)

text \<open>
  C4 (as stated) fails. Built with \<^verbatim>\<open>ORDER\<close> given as 2, the driver runs at filter
  order 2, not 1: \<^verbatim>\<open>sat\<close> is instantiated at \<open>R = 2\<close> and receives three weights,
  the third as \<^verbatim>\<open>initial_setup\<close> left it.
\<close>

theorem order_two_build_weights:
  "ORDER (Some 2) = 2
   \<and> calls (main (Some 2) (spec_collaborators setup_order_two) []) ! 1 =
       CallSat 2 [1, 1, 1, 1] 2 2 1 [1, - 1, 7] 0 Zero"
  by code_simp

text \<open>
  C5. In every build, whatever the collaborators compute, and in particular
  whatever error magnitudes \<^verbatim>\<open>check_cpu_reference\<close> reports, \<^verbatim>\<open>main\<close> returns 0:
  no path of the driver yields another exit status.
\<close>

theorem main_exit_status_zero:
  "exit_status (main d clb argv) = 0"
  by (simp add: main_def Let_def split: prod.split)

text \<open>
  C8. With a repetition count of 1 the driver prints what \<^verbatim>\<open>print_info\<close> prints,
  then the header \<^verbatim>\<open>[sat_R] [max-error] [max-relative-error]:\<close> (\<open>R\<close> the order of
  the build, 1 by default), then the two scalars of \<^verbatim>\<open>check_cpu_reference\<close> under
  \<^verbatim>\<open>std::scientific\<close>; with any other count it prints the two scalars only.
\<close>

theorem main_output:
  fixes clb :: "'a::{one,uminus} collaborators" and argv :: "string list" and d :: build
  defines "s \<equiv> initial_setup clb argv"
  defines "w \<equiv> set_sat_weights (s_w s)"
  defines "cpu \<equiv> ref_sat_cpu clb (ORDER d) (s_cpu_img s) (s_width s) (s_height s) w (s_a0border s) (s_btype s)"
  defines "gpu \<equiv> fst (sat clb (ORDER d) (s_gpu_img s) (s_width s) (s_height s) (s_runtimes s) w (s_border s) (s_btype s))"
  defines "e \<equiv> check_cpu_reference clb cpu gpu (s_width s * s_height s) (s_me s) (s_mre s)"
  shows "(s_runtimes s = 1 \<longrightarrow>
           stdout (main d clb argv) =
             [PrintInfo (s_width s) (s_height s) (s_btype s) (s_border s) (s_a0border s) w,
              Str ''[sat_'', Num (ORDER d), Str '']'', Str '' [max-error] [max-relative-error]:'',
              Str '' '', Scientific (fst e), Str '' '', Scientific (snd e), Str [CHR 0x0A]])
       \<and> (s_runtimes s \<noteq> 1 \<longrightarrow>
           stdout (main d clb argv) =
             [Str '' '', Scientific (fst e), Str '' '', Scientific (snd e), Str [CHR 0x0A]])"
  unfolding s_def w_def cpu_def gpu_def e_def
  by (simp add: main_def Let_def APPNAME_def split: prod.splits)

theorem main_output_witness:
  "length (stdout (main None (spec_collaborators (setup_ones 2 2 1 0 Zero)) [])) = 10
   \<and> length (stdout (main None (spec_collaborators (setup_ones 2 2 1000 0 Zero)) [])) = 5"
  using main_output [of "spec_collaborators (setup_ones 2 2 1 0 Zero)" "[]" None]
        main_output [of "spec_collaborators (setup_ones 2 2 1000 0 Zero)" "[]" None]
  by (simp add: spec_collaborators_def setup_ones_def)

text \<open>
  C9. With border extent 0 the result of \<^verbatim>\<open>sat\<close> (the buffer and the work
  dispatched) is the same for any two border types: the branch taken calls
  \<^verbatim>\<open>sat_gpu<false, R>\<close>, which is not given the border type.
\<close>

theorem sat_border_zero_ignores_btype:
  "sat clb R h_img width height runtimes w 0 b1 = sat clb R h_img width height runtimes w 0 b2"
  by (simp add: sat_def)

text \<open>
  C10. With a strictly negative border extent \<^verbatim>\<open>sat\<close> takes neither branch:
  nothing is dispatched and the image buffer is returned as it was.
\<close>

theorem sat_negative_border_noop:
  "border <s 0 \<Longrightarrow> sat clb R h_img width height runtimes w border btype = (h_img, [])"
  by (auto simp add: sat_def word_sless_alt)

theorem sat_negative_border_noop_witness:
  "sat (spec_collaborators (setup_ones 2 2 1 (- 1) Zero)) 1 [1, 1, 1, 1] 2 2 1 [1, - 1] (- 1) Clamp
     = ([1, 1, 1, 1 :: real], [])"
  using sat_negative_border_noop [of "- 1" "spec_collaborators (setup_ones 2 2 1 (- 1) Zero)" 1 "[1, 1, 1, 1]" 2 2 1 "[1, - 1]" Clamp]
  by (simp add: word_sless_alt)

section \<open>Properties of the modelled collaborators\<close>

lemma Max_insert_max:
  fixes a :: "'a::linorder"
  assumes "finite S"
  shows "Max (insert (max a b) S) = Max (insert a (insert b S))"
proof (cases "S = {}")
  case True
  then show ?thesis by simp
next
  case False
  with assms show ?thesis by (simp add: max.assoc)
qed

lemma check_loop_fst:
  "fst (check_loop cpu gpu me mre) =
     Max (insert me ((\<lambda>(c, g). \<bar>g - c\<bar>) ` set (zip cpu gpu)))"
proof (induction cpu gpu me mre rule: check_loop.induct)
  case (1 c cpu g gpu me mre)
  let ?S = "(\<lambda>(c, g). \<bar>g - c\<bar>) ` set (zip cpu gpu)"
  let ?mre = "if \<bar>c\<bar> > 0 then max mre (\<bar>g - c\<bar> / \<bar>c\<bar>) else mre"
  have "fst (check_loop (c # cpu) (g # gpu) me mre)
      = fst (check_loop cpu gpu (max me \<bar>g - c\<bar>) ?mre)"
    by (simp only: check_loop.simps)
  also have "\<dots> = Max (insert (max me \<bar>g - c\<bar>) ?S)"
    by (rule "1.IH")
  also have "\<dots> = Max (insert me (insert \<bar>g - c\<bar> ?S))"
    by (rule Max_insert_max) simp
  also have "insert me (insert \<bar>g - c\<bar> ?S)
      = insert me ((\<lambda>(c, g). \<bar>g - c\<bar>) ` set (zip (c # cpu) (g # gpu)))"
    by simp
  finally show ?case .
qed simp_all

lemma check_loop_snd:
  "snd (check_loop cpu gpu me mre) =
     Max (insert mre ((\<lambda>(c, g). \<bar>g - c\<bar> / \<bar>c\<bar>) ` {p \<in> set (zip cpu gpu). \<bar>fst p\<bar> > 0}))"
proof (induction cpu gpu me mre rule: check_loop.induct)
  case (1 c cpu g gpu me mre)
  let ?f = "\<lambda>(c, g). \<bar>g - c\<bar> / \<bar>c\<bar>"
  let ?P = "{p \<in> set (zip cpu gpu). \<bar>fst p\<bar> > 0}"
  let ?mre = "if \<bar>c\<bar> > 0 then max mre (\<bar>g - c\<bar> / \<bar>c\<bar>) else mre"
  have step: "snd (check_loop (c # cpu) (g # gpu) me mre) = Max (insert ?mre (?f ` ?P))"
    using "1.IH" by (simp only: check_loop.simps)
  show ?case
  proof (cases "\<bar>c\<bar> > 0")
    case True
    then have P: "{p \<in> set (zip (c # cpu) (g # gpu)). \<bar>fst p\<bar> > 0} = insert (c, g) ?P"
      by auto
    from True have "Max (insert ?mre (?f ` ?P)) = Max (insert (max mre (\<bar>g - c\<bar> / \<bar>c\<bar>)) (?f ` ?P))"
      by simp
    also have "\<dots> = Max (insert mre (insert (\<bar>g - c\<bar> / \<bar>c\<bar>) (?f ` ?P)))"
      by (rule Max_insert_max) simp
    also have "insert mre (insert (\<bar>g - c\<bar> / \<bar>c\<bar>) (?f ` ?P))
        = insert mre (?f ` {p \<in> set (zip (c # cpu) (g # gpu)). \<bar>fst p\<bar> > 0})"
      unfolding P by simp
    finally show ?thesis
      unfolding step .
  next
    case False
    then have P: "{p \<in> set (zip (c # cpu) (g # gpu)). \<bar>fst p\<bar> > 0} = ?P"
      by auto
    from False have "Max (insert ?mre (?f ` ?P)) = Max (insert mre (?f ` ?P))"
      by simp
    then show ?thesis
      unfolding step P .
  qed
qed simp_all

lemma Max_insert_zero:
  fixes S :: "'a::linordered_field set"
  assumes "finite S" "S \<noteq> {}" "\<forall>x\<in>S. 0 \<le> x"
  shows "Max (insert 0 S) = Max S"
proof -
  from assms have "Max S \<in> S" by simp
  with assms(3) have "0 \<le> Max S" by blast
  with assms show ?thesis by (simp add: max_absorb2)
qed

text \<open>
  C6. On two buffers of the same length \<open>n = W \<times> H\<close>, the first scalar of
  \<^verbatim>\<open>check_cpu_reference\<close> is the maximum over all pixels of \<open>\<bar>gpu - cpu\<bar>\<close>, and
  the second is the maximum of \<open>\<bar>gpu - cpu\<bar> / \<bar>cpu\<bar>\<close> over the pixels with
  \<open>\<bar>cpu\<bar> > 0\<close> (where there is such a pixel; the maxima are taken over
  non-empty sets).
\<close>

theorem spec_check_cpu_reference_maxima:
  fixes cpu gpu :: "'a::linordered_field list"
  assumes "length cpu = n" and "length gpu = n" and "nat (sint ne) = n"
  shows "(0 < n \<longrightarrow>
            fst (spec_check_cpu_reference cpu gpu ne me mre)
              = Max {\<bar>gpu ! i - cpu ! i\<bar> | i. i < n})
       \<and> ((\<exists>i<n. \<bar>cpu ! i\<bar> > 0) \<longrightarrow>
            snd (spec_check_cpu_reference cpu gpu ne me mre)
              = Max {\<bar>gpu ! i - cpu ! i\<bar> / \<bar>cpu ! i\<bar> | i. i < n \<and> \<bar>cpu ! i\<bar> > 0})"
proof -
  have z: "set (zip cpu gpu) = {(cpu ! i, gpu ! i) | i. i < n}"
    using assms by (auto simp add: set_zip)
  have A: "(\<lambda>(c, g). \<bar>g - c\<bar>) ` set (zip cpu gpu) = {\<bar>gpu ! i - cpu ! i\<bar> | i. i < n}"
    unfolding z by auto
  have B: "(\<lambda>(c, g). \<bar>g - c\<bar> / \<bar>c\<bar>) ` {p \<in> set (zip cpu gpu). \<bar>fst p\<bar> > 0}
      = {\<bar>gpu ! i - cpu ! i\<bar> / \<bar>cpu ! i\<bar> | i. i < n \<and> \<bar>cpu ! i\<bar> > 0}"
    unfolding z by auto
  have fA: "finite {\<bar>gpu ! i - cpu ! i\<bar> | i. i < n}"
    unfolding A [symmetric] by simp
  have fB: "finite {\<bar>gpu ! i - cpu ! i\<bar> / \<bar>cpu ! i\<bar> | i. i < n \<and> \<bar>cpu ! i\<bar> > 0}"
    unfolding B [symmetric] by simp
  have run: "spec_check_cpu_reference cpu gpu ne me mre = check_loop cpu gpu 0 0"
    using assms by (simp add: spec_check_cpu_reference_def)
  have 1: "fst (spec_check_cpu_reference cpu gpu ne me mre) = Max {\<bar>gpu ! i - cpu ! i\<bar> | i. i < n}"
    if "0 < n"
  proof -
    from that have "{\<bar>gpu ! i - cpu ! i\<bar> | i. i < n} \<noteq> {}" by auto
    then show ?thesis
      unfolding run check_loop_fst A
      using fA by (intro Max_insert_zero) auto
  qed
  have 2: "snd (spec_check_cpu_reference cpu gpu ne me mre)
      = Max {\<bar>gpu ! i - cpu ! i\<bar> / \<bar>cpu ! i\<bar> | i. i < n \<and> \<bar>cpu ! i\<bar> > 0}"
    if "\<exists>i<n. \<bar>cpu ! i\<bar> > 0"
  proof -
    from that have "{\<bar>gpu ! i - cpu ! i\<bar> / \<bar>cpu ! i\<bar> | i. i < n \<and> \<bar>cpu ! i\<bar> > 0} \<noteq> {}" by auto
    then show ?thesis
      unfolding run check_loop_snd B
      using fB by (intro Max_insert_zero) auto
  qed
  from 1 2 show ?thesis by blast
qed

theorem spec_check_cpu_reference_maxima_witness:
  "Max {\<bar>[1, 3, 5, 3 :: rat] ! i - [1, 2, 0, 4] ! i\<bar> | i. i < 4} = 5
   \<and> Max {\<bar>[1, 3, 5, 3 :: rat] ! i - [1, 2, 0, 4] ! i\<bar> / \<bar>[1, 2, 0, 4] ! i\<bar> | i. i < 4 \<and> \<bar>[1, 2, 0, 4 :: rat] ! i\<bar> > 0} = 1 / 2"
proof -
  have h: "\<exists>i<4. \<bar>[1, 2, 0, 4 :: rat] ! i\<bar> > 0"
    by (rule exI [of _ 0]) simp
  have v: "spec_check_cpu_reference [1, 2, 0, 4 :: rat] [1, 3, 5, 3] 4 9 9 = (5, 1 / 2)"
    by (simp add: spec_check_cpu_reference_def)
  show ?thesis
    using spec_check_cpu_reference_maxima [of "[1, 2, 0, 4 :: rat]" 4 "[1, 3, 5, 3]" 4 9 9] h v
    by simp
qed

text \<open>
  C7. On a line of stored pixels, the border policy at an in-range coordinate,
  and so at offset 0, is the stored pixel, for every border type. At offset
  \<open>-1\<close> it is 0 for zero, \<open>pixels[0]\<close> for clamp, \<open>pixels[W - 1]\<close> for repeat and,
  on a line of at least two pixels, \<open>pixels[1]\<close> for reflect.
\<close>

theorem border_policy_offsets:
  fixes pixels :: "'a::zero list"
  assumes "0 < length pixels"
  shows "(\<forall>i. 0 \<le> i \<and> i < int (length pixels) \<longrightarrow> border_policy bt pixels i = pixels ! nat i)
     \<and> border_policy bt pixels 0 = pixels ! 0
     \<and> border_policy Zero pixels (- 1) = 0
     \<and> border_policy Clamp pixels (- 1) = pixels ! 0
     \<and> border_policy Repeat pixels (- 1) = pixels ! (length pixels - 1)
     \<and> (2 \<le> length pixels \<longrightarrow> border_policy Reflect pixels (- 1) = pixels ! 1)"
proof -
  let ?n = "int (length pixels)"
  from assms have n: "0 < ?n" by simp
  have in_range: "border_policy bt pixels i = pixels ! nat i" if "0 \<le> i" "i < ?n" for i
    using that by (simp add: border_policy_def border_coord_def)
  have rep: "(- 1) mod ?n = ?n - 1"
    using n by (simp add: zmod_minus1)
  have "border_policy Repeat pixels (- 1) = pixels ! nat (?n - 1)"
    using n by (simp add: border_policy_def border_coord_def rep)
  moreover have "nat (?n - 1) = length pixels - 1" by simp
  ultimately have repeat: "border_policy Repeat pixels (- 1) = pixels ! (length pixels - 1)"
    by simp
  have reflect: "border_policy Reflect pixels (- 1) = pixels ! 1" if "2 \<le> length pixels"
  proof -
    from that have n2: "2 \<le> ?n" by simp
    then have m: "(- 1) mod (2 * ?n - 2) = 2 * ?n - 3"
      by (simp add: zmod_minus1)
    have c: "border_coord Reflect ?n (- 1) = Some 1"
      using n2 by (auto simp add: border_coord_def m Let_def)
    show ?thesis
      using n2 by (simp add: border_policy_def c)
  qed
  show ?thesis
    using n in_range repeat reflect
    by (simp add: border_policy_def border_coord_def)
qed

theorem border_policy_offsets_witness:
  "border_policy Reflect [10, 11, 12, 13 :: int] (- 1) = 11
   \<and> border_policy Repeat [10, 11, 12, 13 :: int] (- 1) = 13
   \<and> border_policy Clamp [10, 11, 12, 13 :: int] (- 1) = 10
   \<and> border_policy Zero [10, 11, 12, 13 :: int] (- 1) = 0
   \<and> border_policy Reflect [10, 11, 12, 13 :: int] 0 = 10"
  using border_policy_offsets [of "[10, 11, 12, 13 :: int]" Reflect]
  by simp

subsection \<open>The recurrence and the tiled stages\<close>

text \<open>
  In exact arithmetic the three stages reproduce the sequential recurrence: the
  state of the filter after a prefix is the carry of that prefix, the filter is
  linear in state and input together, and so fix-up with the propagated carry
  gives every tile the output it has in the sequential run.
\<close>

lemma length_recursive_filter [simp]:
  "length (recursive_filter a0 b prev xs) = length xs"
  by (induction xs arbitrary: prev) (simp_all add: Let_def)

lemma take_append_take:
  "take R (A @ take R B) = take R (A @ B)"
  by (simp add: take_append min_def)

lemma take_Cons_take:
  "take R (y # take R B) = take R (y # B)"
  using take_append_take [of R "[y]" B] by simp

lemma zip_take_length:
  "zip b (take (length b) prev) = zip b prev"
proof (induction b arbitrary: prev)
  case Nil
  show ?case by simp
next
  case (Cons a b)
  show ?case
    by (cases prev) (simp_all add: Cons.IH)
qed

lemma recursive_filter_take_state:
  "recursive_filter a0 b (take (length b) prev) xs = recursive_filter a0 b prev xs"
proof (induction xs arbitrary: prev)
  case Nil
  show ?case by simp
next
  case (Cons x xs)
  show ?case
    by (simp add: Let_def zip_take_length take_Cons_take del: take_Suc_Cons)
qed

lemma recursive_filter_append:
  "recursive_filter a0 b prev (xs @ ys) =
     recursive_filter a0 b prev xs
       @ recursive_filter a0 b (carry_out (length b) prev (recursive_filter a0 b prev xs)) ys"
proof (induction xs arbitrary: prev)
  case Nil
  show ?case
    by (simp add: carry_out_def recursive_filter_take_state)
next
  case (Cons x xs)
  show ?case
    by (simp add: Let_def Cons.IH carry_out_def take_append_take)
qed


lemma sum_list_feedback_add:
  fixes b :: "'a::semiring_0 list"
  assumes "length c1 = length c2"
  shows "sum_list (map2 (*) b (map2 (+) c1 c2))
       = sum_list (map2 (*) b c1) + sum_list (map2 (*) b c2)"
  using assms
proof (induction c1 c2 arbitrary: b rule: list_induct2)
  case Nil
  show ?case by simp
next
  case (Cons x xs y ys)
  show ?case
    by (cases b) (simp_all add: Cons.IH distrib_left add_ac)
qed

lemma recursive_filter_add:
  fixes a0 :: "'a::semiring_0"
  assumes "length xs = length ys" and "length c1 = length c2"
  shows "recursive_filter a0 b (map2 (+) c1 c2) (map2 (+) xs ys)
       = map2 (+) (recursive_filter a0 b c1 xs) (recursive_filter a0 b c2 ys)"
  using assms
proof (induction xs ys arbitrary: c1 c2 rule: list_induct2)
  case Nil
  show ?case by simp
next
  case (Cons x xs y ys)
  let ?y1 = "a0 * x + sum_list (map2 (*) b c1)"
  let ?y2 = "a0 * y + sum_list (map2 (*) b c2)"
  have y: "a0 * (x + y) + sum_list (map2 (*) b (map2 (+) c1 c2)) = ?y1 + ?y2"
    using Cons.prems by (simp add: sum_list_feedback_add distrib_left add_ac)
  have st: "take (length b) ((?y1 + ?y2) # map2 (+) c1 c2)
      = map2 (+) (take (length b) (?y1 # c1)) (take (length b) (?y2 # c2))"
  proof -
    have "(?y1 + ?y2) # map2 (+) c1 c2 = map2 (+) (?y1 # c1) (?y2 # c2)"
      by simp
    then show ?thesis
      by (simp only: take_map take_zip)
  qed
  have len: "length (take (length b) (?y1 # c1)) = length (take (length b) (?y2 # c2))"
    using Cons.prems by simp
  show ?case
    using Cons.IH [OF len] by (simp add: Let_def y st del: take_Suc_Cons)
qed

lemma map2_add_zeros_left:
  fixes c :: "'a::monoid_add list"
  shows "length c = n \<Longrightarrow> map2 (+) (replicate n 0) c = c"
  by (induction c arbitrary: n) auto

lemma map2_add_zeros_right:
  fixes xs :: "'a::monoid_add list"
  shows "length xs = n \<Longrightarrow> map2 (+) xs (replicate n 0) = xs"
  by (induction xs arbitrary: n) auto

lemma fixup_recursive_filter:
  fixes a0 :: "'a::semiring_0"
  assumes "length c = length b"
  shows "fixup a0 b (recursive_filter a0 b (replicate (length b) 0) xs) c
       = recursive_filter a0 b c xs"
proof -
  have "recursive_filter a0 b c xs
      = recursive_filter a0 b (map2 (+) (replicate (length b) 0) c)
          (map2 (+) xs (replicate (length xs) 0))"
    using assms by (simp add: map2_add_zeros_left map2_add_zeros_right)
  also have "\<dots> = map2 (+) (recursive_filter a0 b (replicate (length b) 0) xs)
                      (recursive_filter a0 b c (replicate (length xs) 0))"
    using assms by (intro recursive_filter_add) simp_all
  finally show ?thesis
    by (simp add: fixup_def transfer_def)
qed

lemma length_carry_out:
  "length prev = R \<Longrightarrow> length (carry_out R prev ys) = R"
  by (simp add: carry_out_def)

lemma carry_out_add:
  fixes A :: "'a::semiring_0 list"
  assumes "length A = length B" and "length z = length c"
  shows "carry_out R (map2 (+) z c) (map2 (+) A B)
       = map2 (+) (carry_out R z A) (carry_out R c B)"
proof -
  have "rev (map2 (+) A B) @ map2 (+) z c = map2 (+) (rev A @ z) (rev B @ c)"
    using assms by (simp add: rev_map zip_rev)
  then show ?thesis
    by (simp add: carry_out_def take_map take_zip)
qed

lemma carry_out_recursive_filter:
  fixes a0 :: "'a::semiring_0"
  assumes "length c = length b"
  shows "carry_out (length b) c (recursive_filter a0 b c xs)
       = map2 (+)
           (carry_out (length b) (replicate (length b) 0)
              (recursive_filter a0 b (replicate (length b) 0) xs))
           (carry_out (length b) c (transfer a0 b (length xs) c))"
proof -
  let ?z = "replicate (length b) 0 :: 'a list"
  have "carry_out (length b) c (recursive_filter a0 b c xs)
      = carry_out (length b) (map2 (+) ?z c)
          (map2 (+) (recursive_filter a0 b ?z xs) (transfer a0 b (length xs) c))"
    using assms fixup_recursive_filter [OF assms, of a0 xs]
    by (simp add: map2_add_zeros_left fixup_def)
  also have "\<dots> = map2 (+) (carry_out (length b) ?z (recursive_filter a0 b ?z xs))
                      (carry_out (length b) c (transfer a0 b (length xs) c))"
    using assms by (intro carry_out_add) (simp_all add: transfer_def)
  finally show ?thesis .
qed

lemma stages_sequential:
  fixes a0 :: "'a::semiring_0"
  assumes "length c = length b"
  shows "concat (map2 (fixup a0 b)
           (map (recursive_filter a0 b (replicate (length b) 0)) ts)
           (carry_propagation a0 b c
              (map (\<lambda>l. (carry_out (length b) (replicate (length b) 0) l, length l))
                 (map (recursive_filter a0 b (replicate (length b) 0)) ts))))
       = recursive_filter a0 b c (concat ts)"
  using assms
proof (induction ts arbitrary: c)
  case Nil
  show ?case by simp
next
  case (Cons t ts)
  let ?c' = "carry_out (length b) c (recursive_filter a0 b c t)"
  have len: "length ?c' = length b"
    using Cons.prems by (simp add: length_carry_out)
  show ?case
    using Cons.IH [OF len] Cons.prems
    by (simp add: fixup_recursive_filter recursive_filter_append
          carry_out_recursive_filter [symmetric])
qed

lemma tiles_of_rec:
  assumes "0 < T" and "xs \<noteq> []"
  shows "tiles_of T xs = take T xs # tiles_of T (drop T xs)"
proof -
  let ?n = "length xs"
  from assms have n: "0 < ?n" by simp
  have step: "(a + T) div T = Suc (a div T)" for a
    using assms by simp
  have cnt: "(?n + T - 1) div T = Suc ((?n - T + T - 1) div T)"
  proof (cases "T \<le> ?n")
    case True
    then have "?n + T - 1 = (?n - T + T - 1) + T" using assms by simp
    then have "(?n + T - 1) div T = ((?n - T + T - 1) + T) div T" by simp
    also have "\<dots> = Suc ((?n - T + T - 1) div T)"
      by (rule step)
    finally show ?thesis .
  next
    case False
    then have "(?n + T - 1) div T = 1"
    proof (intro div_nat_eqI)
      from n show "T * 1 \<le> ?n + T - 1" by (cases ?n) simp_all
      from False assms show "?n + T - 1 < T * Suc 1" by simp
    qed
    moreover from False have "(?n - T + T - 1) div T = 0"
      using assms by simp
    ultimately show ?thesis by simp
  qed
  have "tiles_of T xs = map (\<lambda>k. take T (drop (k * T) xs)) (0 # map Suc [0..<(?n - T + T - 1) div T])"
    unfolding tiles_of_def cnt by (simp only: upt_conv_Cons zero_less_Suc map_Suc_upt)
  also have "\<dots> = take T xs # tiles_of T (drop T xs)"
    by (simp add: tiles_of_def comp_def add.commute)
  finally show ?thesis .
qed

lemma concat_tiles_of:
  assumes "0 < T"
  shows "concat (tiles_of T xs) = xs"
proof (induction "length xs" arbitrary: xs rule: less_induct)
  case less
  show ?case
  proof (cases "xs = []")
    case True
    then show ?thesis using assms by (simp add: tiles_of_def)
  next
    case False
    then have "length (drop T xs) < length xs" using assms by simp
    then have "concat (tiles_of T (drop T xs)) = drop T xs" by (rule less.hyps)
    then show ?thesis
      using tiles_of_rec [OF assms False] by simp
  qed
qed

text \<open>
  The tiled engine on one line computes what the reference recurrence computes
  from a zero state, for every tile side \<open>T > 0\<close>, every order and all weights.
\<close>

theorem tiled_filter_sequential:
  fixes a0 :: "'a::semiring_0"
  assumes "0 < T"
  shows "tiled_filter T a0 b xs = recursive_filter a0 b (replicate (length b) 0) xs"
  using stages_sequential [of "replicate (length b) 0" b a0 "tiles_of T xs"]
  by (simp add: tiled_filter_def Let_def concat_tiles_of [OF assms])


text \<open>
  Hence the modelled \<^verbatim>\<open>sat_gpu\<close> and \<^verbatim>\<open>ref_sat_cpu\<close> return the same buffer when
  they are given the same border extent. This is agreement of sums of exact
  numbers; it says nothing about the rounding of \<^verbatim>\<open>float\<close>.
\<close>

lemma spec_engines_agree:
  fixes w :: "'a::ring list"
  assumes "length w = R + 1"
  shows "spec_sat_gpu_false R img width height runtimes w
           = spec_ref_sat_cpu R img width height w 0 btype"
    and "spec_sat_gpu_true R img width height runtimes w border btype
           = spec_ref_sat_cpu R img width height w border btype"
proof -
  from assms have R: "length (feedback w) = R"
    by (simp add: feedback_def)
  have "tiled_filter TILE (feedforward w) (feedback w)
      = recursive_filter (feedforward w) (feedback w) (replicate R 0)"
    using tiled_filter_sequential [of TILE "feedforward w" "feedback w"]
    by (auto simp add: TILE_def R)
  then show "spec_sat_gpu_false R img width height runtimes w
           = spec_ref_sat_cpu R img width height w 0 btype"
    and "spec_sat_gpu_true R img width height runtimes w border btype
           = spec_ref_sat_cpu R img width height w border btype"
    by (simp_all add: spec_sat_gpu_false_def spec_sat_gpu_true_def spec_ref_sat_cpu_def
          filter_image_def)
qed

text \<open>
  With the SAT weights \<open>[1, -1]\<close> the recurrence is \<open>y[i] = x[i] + y[i-1]\<close>: one
  pass turns a line into its prefix sums.
\<close>

lemma sat_weights_coefficients:
  "feedforward [1, - 1 :: 'a::ring_1] = 1" "feedback [1, - 1 :: 'a::ring_1] = [1]"
  by (simp_all add: feedforward_def feedback_def)

lemma recursive_filter_prefix_sums:
  fixes xs :: "'a::semiring_1 list"
  assumes "i < length xs"
  shows "recursive_filter 1 [1] [p] xs ! i = p + sum_list (take (Suc i) xs)"
  using assms
proof (induction xs arbitrary: p i)
  case Nil
  then show ?case by simp
next
  case (Cons x xs)
  show ?case
  proof (cases i)
    case 0
    then show ?thesis by (simp add: Let_def add.commute)
  next
    case (Suc j)
    with Cons.prems have "j < length xs" by simp
    from Cons.IH [OF this, of "x + p"] Suc show ?thesis
      by (simp add: Let_def add_ac)
  qed
qed

subsection \<open>The known scenario\<close>

lemma ones_table_4x4:
  "ones_table 4 4 = [1, 2, 3, 4, 2, 4, 6, 8, 3, 6, 9, 12, 4, 8, 12, 16]"
  by code_simp

lemma spec_ref_sat_cpu_any_btype:
  "spec_ref_sat_cpu R img W H w 0 bt = spec_ref_sat_cpu R img W H w 0 Zero"
  by (simp add: spec_ref_sat_cpu_def filter_image_def)

lemma spec_ref_sat_cpu_ones_4x4:
  "spec_ref_sat_cpu (ORDER None) (replicate 16 1) 4 4 [1, - 1] 0 bt
     = [1, 2, 3, 4, 2, 4, 6, 8, 3, 6, 9, 12, 4, 8, 12, 16 :: real]"
proof -
  have "spec_ref_sat_cpu (ORDER None) (replicate 16 1) 4 4 [1, - 1] 0 Zero
      = [1, 2, 3, 4, 2, 4, 6, 8, 3, 6, 9, 12, 4, 8, 12, 16 :: real]"
    by code_simp
  then show ?thesis
    by (simp only: spec_ref_sat_cpu_any_btype [of _ _ _ _ _ bt])
qed

lemma spec_sat_gpu_false_ones_4x4:
  "spec_sat_gpu_false (ORDER None) (replicate 16 1) 4 4 rt [1, - 1]
     = [1, 2, 3, 4, 2, 4, 6, 8, 3, 6, 9, 12, 4, 8, 12, 16 :: real]"
proof -
  have "spec_sat_gpu_false (ORDER None) (replicate 16 1) 4 4 rt [1, - 1]
      = spec_sat_gpu_false (ORDER None) (replicate 16 1) 4 4 1 [1, - 1 :: real]"
    by (simp add: spec_sat_gpu_false_def)
  also have "\<dots> = [1, 2, 3, 4, 2, 4, 6, 8, 3, 6, 9, 12, 4, 8, 12, 16 :: real]"
    by code_simp
  finally show ?thesis .
qed

lemma spec_check_cpu_reference_4x4:
  "spec_check_cpu_reference
     [1, 2, 3, 4, 2, 4, 6, 8, 3, 6, 9, 12, 4, 8, 12, 16 :: real]
     [1, 2, 3, 4, 2, 4, 6, 8, 3, 6, 9, 12, 4, 8, 12, 16] 16 0 0 = (0, 0)"
  by code_simp

text \<open>
  C2. The driver in the default build (order 1) on the modelled collaborators,
  for a \<open>4 \<times> 4\<close> image of ones with border extent 0, any repetition count and
  any border type: the tiled
  engine is dispatched and its output holds \<open>(r + 1) * (c + 1)\<close> at row \<open>r\<close> and
  column \<open>c\<close>; the checker is given this table twice (reference and accelerated
  result), and the two scalars the run prints are both 0.
\<close>

theorem ones_4x4_known_scenario:
  "calls (main None (spec_collaborators (setup_ones 4 4 rt 0 bt)) []) ! 2 =
     CallSatGpuFalse (ORDER None) (replicate 16 1) 4 4 rt [1, - 1]
   \<and> spec_sat_gpu_false (ORDER None) (replicate 16 1) 4 4 rt [1, - 1] = ones_table 4 4
   \<and> calls (main None (spec_collaborators (setup_ones 4 4 rt 0 bt)) []) ! 3 =
     CallCheckCpuReference (ones_table 4 4) (ones_table 4 4) 16 0 0
   \<and> drop (length (stdout (main None (spec_collaborators (setup_ones 4 4 rt 0 bt)) [])) - 5)
        (stdout (main None (spec_collaborators (setup_ones 4 4 rt 0 bt)) []))
      = [Str '' '', Scientific 0, Str '' '', Scientific 0, Str [CHR 0x0A]]"
  by (simp add: main_def Let_def sat_def spec_collaborators_def setup_ones_def
        set_sat_weights_def APPNAME_def ones_table_4x4 spec_sat_gpu_false_ones_4x4
        spec_check_cpu_reference_4x4 spec_ref_sat_cpu_ones_4x4 split: prod.splits)

end
